theory Spec2Isabelle
  imports Complex_Main "HOL-Library.Sublist"
begin

section \<open>Run-directory file names: \<^verbatim>\<open>wandb/sdk/lib/filenames.py\<close>\<close>

subsection \<open>Strings and paths\<close>

text \<open>
  Python's \<^verbatim>\<open>sub in s\<close> on two \<^verbatim>\<open>str\<close> values: \<^verbatim>\<open>sub\<close> occurs in \<^verbatim>\<open>s\<close> as a
  contiguous run of characters, starting at some position of \<^verbatim>\<open>s\<close>.
\<close>

fun str_in :: "string \<Rightarrow> string \<Rightarrow> bool" where
  "str_in sub [] = (sub = [])"
| "str_in sub (c # cs) = (prefix sub (c # cs) \<or> str_in sub cs)"

text \<open>
  \<^verbatim>\<open>os.path.join(a, b)\<close> with two arguments on a POSIX platform, where \<^verbatim>\<open>os.path\<close> is
  \<^verbatim>\<open>posixpath\<close> and the separator is \<^verbatim>\<open>/\<close>:
  \<^verbatim>\<open>
  if b.startswith('/'): path = b
  elif not path or path.endswith('/'): path += b
  else: path += '/' + b
  \<close>
  The join of a Windows platform (\<^verbatim>\<open>ntpath.join\<close>, with drives and two separators) is
  another function and is not modelled: the walk below is that of a POSIX platform.
\<close>

definition path_join :: "string \<Rightarrow> string \<Rightarrow> string" where
  "path_join a b =
     (if prefix ''/'' b then b
      else if a = [] \<or> last a = CHR ''/'' then a @ b
      else a @ ''/'' @ b)"

subsection \<open>Constants and \<^verbatim>\<open>exclude_wandb_fn\<close>\<close>

definition WANDB_DIRS :: "string list" where
  "WANDB_DIRS = [''wandb'', ''.wandb'']"

text \<open>
  \<^verbatim>\<open>
  def exclude_wandb_fn(path: str) -> bool:
      return any(os.sep + wandb_dir + os.sep in path for wandb_dir in WANDB_DIRS)
  \<close>
  The separator \<^verbatim>\<open>os.sep\<close> is a constant of the platform, one character (\<^verbatim>\<open>/\<close> or the
  backslash), and is a parameter here.
\<close>

definition exclude_wandb_fn :: "char \<Rightarrow> string \<Rightarrow> bool" where
  "exclude_wandb_fn sep path =
     list_ex (\<lambda>wandb_dir. str_in ([sep] @ wandb_dir @ [sep]) path) WANDB_DIRS"

subsection \<open>The directory walk of \<^verbatim>\<open>filtered_dir\<close>\<close>

text \<open>
  A directory as \<^verbatim>\<open>os.walk\<close> lists it: the names of its files, and its
  subdirectories by name, both in the order of the listing.
\<close>

datatype fs_dir = Dir (dir_files: "string list") (dir_subdirs: "(string \<times> fs_dir) list")

text \<open>
  The first loop of the body,
  \<^verbatim>\<open>
  for dir in dirs:
      if exclude_fn(dir):
          dirs.remove(dir)
  \<close>
  iterates over the list it mutates. A Python list iterator holds an index \<open>i\<close>: each
  round reads \<^verbatim>\<open>dirs[i]\<close> if \<open>i\<close> is still below the current length, and moves to
  \<open>i + 1\<close>, whatever happened to the list in between. \<^verbatim>\<open>dirs.remove(dir)\<close> deletes
  the first entry equal to \<^verbatim>\<open>dir\<close>.
\<close>

function remove_excluded :: "(string \<Rightarrow> bool) \<Rightarrow> nat \<Rightarrow> string list \<Rightarrow> string list" where
  "remove_excluded exclude_fn i dirs =
     (if i < length dirs then
        (if exclude_fn (dirs ! i)
         then remove_excluded exclude_fn (Suc i) (remove1 (dirs ! i) dirs)
         else remove_excluded exclude_fn (Suc i) dirs)
      else dirs)"
  by pat_completeness auto
termination
  by (relation "measure (\<lambda>(exclude_fn, i, dirs). length dirs - i)")
     (auto simp: length_remove1)

text \<open>
  \<^verbatim>\<open>os.walk(top)\<close>, top-down: it yields \<^verbatim>\<open>(dirpath, dirs, files)\<close> for the directory,
  lets the consumer run (which may change \<^verbatim>\<open>dirs\<close> in place: \<open>on_dirs\<close>), and then
  walks into \<^verbatim>\<open>os.path.join(dirpath, name)\<close> for every name still in \<^verbatim>\<open>dirs\<close>. A name
  that is no subdirectory lists nothing.
\<close>

function walk ::
  "(string list \<Rightarrow> string list) \<Rightarrow> string \<Rightarrow> fs_dir
    \<Rightarrow> (string \<times> string list \<times> string list) list" where
  "walk on_dirs dirpath (Dir files subdirs) =
     (let dirs = on_dirs (map fst subdirs) in
      (dirpath, dirs, files) #
      concat (map (\<lambda>name. case map_of subdirs name of
                             Some d \<Rightarrow> walk on_dirs (path_join dirpath name) d
                           | None \<Rightarrow> []) dirs))"
  by pat_completeness auto

termination walk
proof (relation "measure (\<lambda>(on_dirs, dirpath, d). size d)", goal_cases)
  case 1
  show ?case by simp
next
  case (2 on_dirs dirpath files subdirs dirs name d)
  from \<open>map_of subdirs name = Some d\<close> have "(name, d) \<in> set subdirs"
    by (rule map_of_SomeD)
  then have "size_prod (\<lambda>_. 0) size (name, d) \<le> size_list (size_prod (\<lambda>_. 0) size) subdirs"
    by (simp add: size_list_estimation')
  then show ?case by simp
qed

text \<open>
  \<^verbatim>\<open>
  def filtered_dir(root, include_fn, exclude_fn):
      for dirpath, dirs, files in os.walk(root):
          for dir in dirs:
              if exclude_fn(dir):
                  dirs.remove(dir)
          for fname in files:
              file_path = os.path.join(dirpath, fname)
              if include_fn(file_path) and not exclude_fn(file_path):
                  yield file_path
  \<close>
  The generator's output is the list of the paths it yields, in order; \<open>tree\<close> is the
  directory found at \<^verbatim>\<open>root\<close> (\<open>rootdir\<close> here).
\<close>

definition yield_files ::
  "(string \<Rightarrow> bool) \<Rightarrow> (string \<Rightarrow> bool) \<Rightarrow> string \<Rightarrow> string list \<Rightarrow> string list" where
  "yield_files include_fn exclude_fn dirpath files =
     filter (\<lambda>file_path. include_fn file_path \<and> \<not> exclude_fn file_path)
       (map (path_join dirpath) files)"

definition filtered_dir ::
  "fs_dir \<Rightarrow> string \<Rightarrow> (string \<Rightarrow> bool) \<Rightarrow> (string \<Rightarrow> bool) \<Rightarrow> string list" where
  "filtered_dir tree rootdir include_fn exclude_fn =
     concat (map (\<lambda>(dirpath, dirs, files). yield_files include_fn exclude_fn dirpath files)
       (walk (remove_excluded exclude_fn 0) rootdir tree))"

section \<open>Cycle-safe shape inspector (\<^verbatim>\<open>nested_shape\<close>)\<close>

text \<open>
  Modelled from the spec: the values \<^verbatim>\<open>shape_of\<close> inspects. The inspector
  (\<^verbatim>\<open>wandb.wandb_torch.nested_shape\<close>) is called by
  \<^verbatim>\<open>tests/integrations/test_torch.py\<close> and is not among the sources. A value is a
  tensor (of which only the dimension sizes are read), an ordered container, or anything
  else. Containers are objects with an identity and may contain themselves, so a
  container value is a reference, and the heap gives the elements of each container.
\<close>

datatype val = Tensor "int list" | Container nat | Other

text \<open>
  Modelled from the spec: the heap of one call, the elements of each container in
  order; a container's identity is its position in the heap.
\<close>

type_synonym heap = "val list list"

text \<open>
  Modelled from the spec: the elements of the container at reference \<open>a\<close>. Python has
  no dangling reference; one outside the heap is read as a container without elements.
\<close>

definition elements :: "heap \<Rightarrow> nat \<Rightarrow> val list" where
  "elements h a = (if a < length h then h ! a else [])"

text \<open>
  Modelled from the spec: the shape descriptor, as the Python value the tests compare
  with: a sequence of integers for a tensor, a sequence of descriptors for a container,
  the integer \<open>0\<close> for a container already visited.
\<close>

datatype shape = IntV int | ListV "shape list"

text \<open>
  Modelled from the spec: \<^verbatim>\<open>shape_of(value, visited)\<close> (section 4.3). The \<open>visited\<close>
  set holds container identities, is shared by all recursive calls of one top-level
  call, and is therefore passed in and returned. \<open>shape_of_items\<close> is the loop over
  the elements of a container, from left to right.
\<close>

function shape_of :: "heap \<Rightarrow> val \<Rightarrow> nat set \<Rightarrow> shape \<times> nat set"
  and shape_of_items :: "heap \<Rightarrow> val list \<Rightarrow> nat set \<Rightarrow> shape list \<times> nat set" where
  "shape_of h (Tensor dims) visited = (ListV (map IntV dims), visited)"
| "shape_of h (Container a) visited =
     (if a \<in> visited then (IntV 0, visited)
      else (case shape_of_items h (elements h a) (insert a visited) of
              (ds, visited') \<Rightarrow> (ListV ds, visited')))"
| "shape_of h Other visited = (ListV [], visited)"
| "shape_of_items h [] visited = ([], visited)"
| "shape_of_items h (x # xs) visited =
     (case shape_of h x visited of
        (d, visited1) \<Rightarrow>
          (case shape_of_items h xs visited1 of
             (ds, visited2) \<Rightarrow> (d # ds, visited2)))"
  by pat_completeness auto

text \<open>
  The recursion is nested: the set a call returns is the argument of the next one. Where
  a call returns, it returns a set that contains the one it was given; with that, the
  containers of the heap not yet visited never grow and shrink at each fresh container.
\<close>

lemma visited_grows_dom:
  "shape_of_shape_of_items_dom (Inl (h, v, visited)) \<Longrightarrow>
     visited \<subseteq> snd (shape_of h v visited)"
  "shape_of_shape_of_items_dom (Inr (h, xs, visited)) \<Longrightarrow>
     visited \<subseteq> snd (shape_of_items h xs visited)"
proof (induction h v visited and h xs visited rule: shape_of_shape_of_items.pinduct)
  case (1 h dims visited)
  then show ?case by (simp add: shape_of.psimps)
next
  case (2 h a visited)
  then show ?case by (auto simp: shape_of.psimps split: prod.splits)
next
  case (3 h visited)
  then show ?case by (simp add: shape_of.psimps)
next
  case (4 h visited)
  then show ?case by (simp add: shape_of_items.psimps)
next
  case (5 h x xs visited)
  then show ?case by (fastforce simp: shape_of_items.psimps split: prod.splits)
qed

termination shape_of
proof (relation "inv_image (finite_psubset <*lex*> less_than)
         (\<lambda>arg. case arg of
            Inl (h, v, visited) \<Rightarrow> ({..<length h} - visited, 1)
          | Inr (h, xs, visited) \<Rightarrow>
              ({..<length h} - visited, if xs = [] then 0 else Suc (length xs)))",
       goal_cases)
  case 1
  show ?case by auto
next
  case (2 h a visited)
  then show ?case
    by (cases "a < length h") (auto simp: finite_psubset_def elements_def)
next
  case (3 h x xs visited)
  then show ?case by (simp add: finite_psubset_def)
next
  case (4 h x xs visited d visited1)
  from 4(2) have "visited \<subseteq> snd (shape_of h x visited)" by (rule visited_grows_dom)
  with 4(1) have "visited \<subseteq> visited1" by (metis snd_conv)
  then have sub: "{..<length h} - visited1 \<subseteq> {..<length h} - visited" by blast
  show ?case
  proof (cases "{..<length h} - visited1 = {..<length h} - visited")
    case True
    then show ?thesis by simp
  next
    case False
    with sub have "{..<length h} - visited1 \<subset> {..<length h} - visited" by blast
    then show ?thesis by (simp add: finite_psubset_def)
  qed
qed

text \<open>
  Modelled from the spec: a top-level call, with a \<open>visited\<close> set of its own that
  starts empty and is dropped at the end.
\<close>

definition nested_shape :: "heap \<Rightarrow> val \<Rightarrow> shape" where
  "nested_shape h v = fst (shape_of h v {})"

section \<open>Watching a model's graph\<close>

text \<open>
  Modelled from the spec: the failure of a misused \<^verbatim>\<open>wandb.watch\<close> (sections 4.4 and
  7). \<^verbatim>\<open>wandb.watch\<close> and the graph extractor are called by
  \<^verbatim>\<open>tests/integrations/test_torch.py\<close> (\<^verbatim>\<open>test_double_log\<close> expects \<^verbatim>\<open>ValueError\<close>) and
  are not among the sources. The message of the real exception is not given by the
  spec, which only wants one; \<open>double_watch_message\<close> stands for it.
\<close>

datatype watch_error = ValueError string

text \<open>
  Modelled from the spec: the descriptive message of the validation failure (its
  wording is not in the spec).
\<close>

definition double_watch_message :: string where
  "double_watch_message = ''the graph of this model is already watched; reset before watching it again''"

text \<open>
  Modelled from the spec: what the process remembers between calls, the models (by
  identity) whose graph extraction is registered.
\<close>

record watch_state =
  graph_hooked :: "nat set"

text \<open>
  Modelled from the spec: \<^verbatim>\<open>watch(model, log_graph=True)\<close>. A model whose graph is
  already registered is a misuse: the call fails with a validation failure and does
  nothing else. Otherwise the registration is recorded. The result is the exception
  raised, if any, and the state the process continues with.
\<close>

definition watch :: "nat \<Rightarrow> watch_state \<Rightarrow> watch_error option \<times> watch_state" where
  "watch model s =
     (if model \<in> graph_hooked s then (Some (ValueError double_watch_message), s)
      else (None, s\<lparr>graph_hooked := insert model (graph_hooked s)\<rparr>))"

text \<open>Modelled from the spec: resetting a model, after which it may be watched again.\<close>

definition reset_watch :: "nat \<Rightarrow> watch_state \<Rightarrow> watch_state" where
  "reset_watch model s = s\<lparr>graph_hooked := graph_hooked s - {model}\<rparr>"

section \<open>Histogram-safe summarizer: the filter step\<close>

text \<open>
  Modelled from the spec: an entry of a flattened tensor. The summarizer
  (\<^verbatim>\<open>wandb.wandb_torch.TorchHistory\<close>) is called by
  \<^verbatim>\<open>tests/integrations/test_torch.py\<close> and is not among the sources. An entry is a finite
  number or one of the three non-finite values of the floating-point format.
\<close>

datatype fp = Finite real | NaN | PosInf | NegInf

text \<open>
  Modelled from the spec: a finite value is one that is neither NaN nor an infinity
  (glossary).
\<close>

fun is_finite :: "fp \<Rightarrow> bool" where
  "is_finite (Finite x) = True"
| "is_finite NaN = False"
| "is_finite PosInf = False"
| "is_finite NegInf = False"

text \<open>
  Modelled from the spec: step 1 of \<^verbatim>\<open>summarize\<close> (section 4.1), in the two parts the
  tests call: \<^verbatim>\<open>_remove_invalid_entries\<close> drops the non-finite entries of the flattened
  tensor, \<^verbatim>\<open>_no_valid_values\<close> says that nothing would remain.
\<close>

definition remove_invalid_entries :: "fp list \<Rightarrow> fp list" where
  "remove_invalid_entries T = filter is_finite T"

definition no_valid_values :: "fp list \<Rightarrow> bool" where
  "no_valid_values T = (remove_invalid_entries T = [])"

text \<open>
  Modelled from the spec: the result of \<^verbatim>\<open>summarize\<close>, \<^verbatim>\<open>HistogramRecord | Empty\<close>.
\<close>

datatype 'r summary = Empty | Record 'r

text \<open>
  Modelled from the spec: \<^verbatim>\<open>summarize(tensor, bin_count)\<close> (section 4.1). Step 1 filters
  and returns \<^verbatim>\<open>Empty\<close> if nothing is left. Steps 2 to 4 (bounds, widening, edges and
  counts) run in the floating-point arithmetic of the tensor library on the entries
  that are left; they are the parameter \<open>histogram\<close>, which returns a record or fails.
\<close>

definition summarize ::
  "(fp list \<Rightarrow> nat \<Rightarrow> 'e + 'r) \<Rightarrow> fp list \<Rightarrow> nat \<Rightarrow> 'e + 'r summary" where
  "summarize histogram T bin_count =
     (if no_valid_values T then Inr Empty
      else (case histogram (remove_invalid_entries T) bin_count of
              Inl e \<Rightarrow> Inl e
            | Inr r \<Rightarrow> Inr (Record r)))"

section \<open>Properties of \<^verbatim>\<open>exclude_wandb_fn\<close>\<close>

lemma str_in_iff: "str_in sub s \<longleftrightarrow> (\<exists>pre post. s = pre @ sub @ post)"
proof (induction s)
  case Nil
  then show ?case by auto
next
  case (Cons c cs)
  show ?case
  proof
    assume "str_in sub (c # cs)"
    then consider "prefix sub (c # cs)" | "str_in sub cs" by auto
    then show "\<exists>pre post. c # cs = pre @ sub @ post"
    proof cases
      case 1
      then obtain post where "c # cs = sub @ post" by (auto simp: prefix_def)
      then have "c # cs = [] @ sub @ post" by simp
      then show ?thesis by blast
    next
      case 2
      with Cons.IH obtain pre post where "cs = pre @ sub @ post" by blast
      then have "c # cs = (c # pre) @ sub @ post" by simp
      then show ?thesis by blast
    qed
  next
    assume "\<exists>pre post. c # cs = pre @ sub @ post"
    then obtain pre post where eq: "c # cs = pre @ sub @ post" by blast
    show "str_in sub (c # cs)"
    proof (cases pre)
      case Nil
      with eq have "prefix sub (c # cs)" by (simp add: prefix_def)
      then show ?thesis by simp
    next
      case (Cons p pre')
      with eq have "cs = pre' @ sub @ post" by simp
      with Cons.IH have "str_in sub cs" by blast
      then show ?thesis by simp
    qed
  qed
qed

lemma str_in_set: "str_in sub s \<Longrightarrow> set sub \<subseteq> set s"
  by (auto simp: str_in_iff)

text \<open>
  A pattern that ends in a character \<open>c\<close> cannot end inside a tail \<open>w\<close> free of \<open>c\<close>:
  appending \<open>w\<close> adds no occurrence.
\<close>

lemma prefix_snoc_append:
  assumes "c \<notin> set w"
  shows "prefix (xs @ [c]) (q @ w) \<longleftrightarrow> prefix (xs @ [c]) q"
proof
  assume "prefix (xs @ [c]) (q @ w)"
  then consider "prefix (xs @ [c]) q" | us where "xs @ [c] = q @ us" "prefix us w"
    by (auto simp: prefix_append)
  then show "prefix (xs @ [c]) q"
  proof cases
    case 1
    then show ?thesis .
  next
    case 2
    show ?thesis
    proof (cases us rule: rev_cases)
      case Nil
      with 2 show ?thesis by simp
    next
      case (snoc us' u)
      with 2 have "u = c" by simp
      with snoc 2(2) have "c \<in> set w" by (auto dest: set_mono_prefix)
      with assms show ?thesis by simp
    qed
  qed
next
  assume "prefix (xs @ [c]) q"
  then show "prefix (xs @ [c]) (q @ w)" by (rule prefix_prefix)
qed

lemma str_in_snoc_append:
  assumes "c \<notin> set w"
  shows "str_in (xs @ [c]) (q @ w) \<longleftrightarrow> str_in (xs @ [c]) q"
proof (induction q)
  case Nil
  from assms have "\<not> str_in (xs @ [c]) w" by (auto dest: str_in_set)
  then show ?case by simp
next
  case (Cons a q)
  have "prefix (xs @ [c]) ((a # q) @ w) \<longleftrightarrow> prefix (xs @ [c]) (a # q)"
    using assms by (rule prefix_snoc_append)
  with Cons show ?case by simp
qed

lemma exclude_wandb_fn_leading:
  "sep \<notin> set ''wandb'' \<Longrightarrow>
     exclude_wandb_fn sep (''wandb'' @ [sep] @ rest) = exclude_wandb_fn sep ([sep] @ rest)"
  by (auto simp add: exclude_wandb_fn_def WANDB_DIRS_def)

lemma exclude_wandb_fn_final:
  assumes "sep \<notin> set ''wandb''"
  shows "exclude_wandb_fn sep (pre @ [sep] @ ''wandb'') = exclude_wandb_fn sep (pre @ [sep])"
proof -
  have "str_in (([sep] @ d) @ [sep]) ((pre @ [sep]) @ ''wandb'')
          = str_in (([sep] @ d) @ [sep]) (pre @ [sep])" for d
    using assms by (rule str_in_snoc_append)
  then show ?thesis
    by (simp add: exclude_wandb_fn_def WANDB_DIRS_def)
qed

text \<open>
  Claim C10. \<^verbatim>\<open>exclude_wandb_fn(path)\<close> is true exactly when \<^verbatim>\<open>path\<close> contains
  \<^verbatim>\<open>os.sep + "wandb" + os.sep\<close> or \<^verbatim>\<open>os.sep + ".wandb" + os.sep\<close> as a substring. In
  particular, with a separator that is no letter of \<^verbatim>\<open>wandb\<close>, a leading \<^verbatim>\<open>"wandb" + os.sep\<close>
  without a separator before it counts for nothing (the answer is that of the rest of
  the path), and neither does a final component \<^verbatim>\<open>wandb\<close>: a path that has nothing
  else is answered False.
\<close>

theorem exclude_wandb_fn_substring:
  "(exclude_wandb_fn sep path \<longleftrightarrow>
      (\<exists>pre post. path = pre @ [sep] @ ''wandb'' @ [sep] @ post) \<or>
      (\<exists>pre post. path = pre @ [sep] @ ''.wandb'' @ [sep] @ post))
   \<and> (sep \<notin> set ''wandb'' \<longrightarrow>
        exclude_wandb_fn sep (''wandb'' @ [sep] @ rest) = exclude_wandb_fn sep ([sep] @ rest))
   \<and> (sep \<notin> set ''wandb'' \<longrightarrow>
        exclude_wandb_fn sep (parent @ [sep] @ ''wandb'') = exclude_wandb_fn sep (parent @ [sep]))"
proof -
  have "exclude_wandb_fn sep path \<longleftrightarrow>
      (\<exists>pre post. path = pre @ [sep] @ ''wandb'' @ [sep] @ post) \<or>
      (\<exists>pre post. path = pre @ [sep] @ ''.wandb'' @ [sep] @ post)"
    by (simp add: exclude_wandb_fn_def WANDB_DIRS_def str_in_iff)
  then show ?thesis
    using exclude_wandb_fn_leading [of sep rest] exclude_wandb_fn_final [of sep parent]
    by blast
qed

theorem exclude_wandb_fn_substring_witness:
  "\<not> exclude_wandb_fn CHR ''/'' ''wandb/run-1/files''
   \<and> \<not> exclude_wandb_fn CHR ''/'' ''/home/user/wandb''
   \<and> exclude_wandb_fn CHR ''/'' ''/home/user/wandb/run-1''
   \<and> exclude_wandb_fn CHR ''/'' ''proj/.wandb/cache''"
proof -
  have sep: "CHR ''/'' \<notin> set ''wandb''" by simp
  have a: "exclude_wandb_fn CHR ''/'' (''wandb'' @ [CHR ''/''] @ ''run-1/files'')
             = exclude_wandb_fn CHR ''/'' ([CHR ''/''] @ ''run-1/files'')"
    using exclude_wandb_fn_substring [of "CHR ''/''" "[]" "''run-1/files''" "[]"] sep by blast
  have b: "exclude_wandb_fn CHR ''/'' (''/home/user'' @ [CHR ''/''] @ ''wandb'')
             = exclude_wandb_fn CHR ''/'' (''/home/user'' @ [CHR ''/''])"
    using exclude_wandb_fn_substring [of "CHR ''/''" "[]" "[]" "''/home/user''"] sep by blast
  have c: "exclude_wandb_fn CHR ''/'' ''/home/user/wandb/run-1''"
  proof -
    have "''/home/user/wandb/run-1'' = ''/home/user'' @ [CHR ''/''] @ ''wandb'' @ [CHR ''/''] @ ''run-1''"
      by simp
    then show ?thesis
      using exclude_wandb_fn_substring [of "CHR ''/''" "''/home/user/wandb/run-1''" "[]" "[]"]
      by blast
  qed
  have d: "exclude_wandb_fn CHR ''/'' ''proj/.wandb/cache''"
  proof -
    have "''proj/.wandb/cache'' = ''proj'' @ [CHR ''/''] @ ''.wandb'' @ [CHR ''/''] @ ''cache''"
      by simp
    then show ?thesis
      using exclude_wandb_fn_substring [of "CHR ''/''" "''proj/.wandb/cache''" "[]" "[]"]
      by blast
  qed
  have "\<not> exclude_wandb_fn CHR ''/'' ([CHR ''/''] @ ''run-1/files'')"
    by (simp add: exclude_wandb_fn_def WANDB_DIRS_def)
  moreover have "\<not> exclude_wandb_fn CHR ''/'' (''/home/user'' @ [CHR ''/''])"
    by (simp add: exclude_wandb_fn_def WANDB_DIRS_def)
  ultimately show ?thesis using a b c d by simp
qed

section \<open>Properties of \<^verbatim>\<open>filtered_dir\<close>\<close>

text \<open>Whatever the walk visits, a path is yielded only after both tests.\<close>

lemma filtered_dir_yields_included:
  "p \<in> set (filtered_dir tree rootdir include_fn exclude_fn) \<Longrightarrow>
     include_fn p \<and> \<not> exclude_fn p"
  by (auto simp: filtered_dir_def yield_files_def)

text \<open>
  The entry that follows a removed one moves into the position the iterator has just
  left, and is kept whether \<^verbatim>\<open>exclude_fn\<close> holds of it or not.
\<close>

lemma remove_excluded_pair:
  "exclude_fn a \<Longrightarrow> remove_excluded exclude_fn 0 [a, b] = [b]"
  by simp

text \<open>
  Claim C9. Every path \<^verbatim>\<open>filtered_dir\<close> yields satisfies \<^verbatim>\<open>include_fn\<close> and not
  \<^verbatim>\<open>exclude_fn\<close> (lemma \<open>filtered_dir_yields_included\<close>), and the walk is to descend
  into no subdirectory whose name satisfies \<^verbatim>\<open>exclude_fn\<close>. The second part fails: the
  loop removes entries from the list it iterates over, so the entry after a removed one
  is never tested. With \<^verbatim>\<open>run/\<close> listing the subdirectories \<^verbatim>\<open>wandb\<close> (holding
  \<^verbatim>\<open>a.txt\<close>) and \<^verbatim>\<open>.wandb\<close> (holding \<^verbatim>\<open>b.txt\<close>) in this order, and an \<^verbatim>\<open>exclude_fn\<close>
  true of exactly these two names, the loop leaves \<^verbatim>\<open>.wandb\<close> in \<^verbatim>\<open>dirs\<close>, and
  \<^verbatim>\<open>run/.wandb/b.txt\<close> is yielded.
\<close>

theorem filtered_dir_skips_entry_after_removed:
  "remove_excluded (\<lambda>p. p = ''wandb'' \<or> p = ''.wandb'') 0 [''wandb'', ''.wandb''] = [''.wandb'']
   \<and> filtered_dir
        (Dir [] [(''wandb'', Dir [''a.txt''] []), (''.wandb'', Dir [''b.txt''] [])])
        ''run'' (\<lambda>p. True) (\<lambda>p. p = ''wandb'' \<or> p = ''.wandb'')
      = [''run/.wandb/b.txt'']"
  by (simp add: filtered_dir_def yield_files_def path_join_def)

section \<open>Properties of the shape inspector\<close>

lemma visited_grows:
  "visited \<subseteq> snd (shape_of h v visited)"
  "visited \<subseteq> snd (shape_of_items h xs visited)"
  by (induction h v visited and h xs visited rule: shape_of_shape_of_items.induct)
     (force split: prod.splits)+



text \<open>The first two calls of \<^verbatim>\<open>test_nested_shape\<close>.\<close>

lemma nested_shape_test_flat:
  "nested_shape [[Other, Other, Other]] (Container 0) = ListV [ListV [], ListV [], ListV []]"
  "nested_shape [[Tensor [2, 3], Tensor [4, 5]]] (Container 0)
     = ListV [ListV [IntV 2, IntV 3], ListV [IntV 4, IntV 5]]"
  by (simp_all add: nested_shape_def elements_def)




section \<open>Properties of watching a model's graph\<close>



text \<open>After a reset the model can be watched again.\<close>

lemma watch_after_reset: "fst (watch model (reset_watch model s)) = None"
  by (simp add: watch_def reset_watch_def)

section \<open>Properties of the summarizer's filter step\<close>

lemma no_valid_values_iff: "no_valid_values T \<longleftrightarrow> (\<forall>x \<in> set T. \<not> is_finite x)"
  by (simp add: no_valid_values_def remove_invalid_entries_def filter_empty_conv)

lemma is_finite_iff: "is_finite x \<longleftrightarrow> x \<notin> {NaN, PosInf, NegInf}"
  by (cases x) simp_all

text \<open>The expected values of \<^verbatim>\<open>test_no_valid_values\<close> and \<^verbatim>\<open>test_remove_invalid_entries\<close>.\<close>

lemma no_valid_values_test_table:
  "\<not> no_valid_values [Finite 1, Finite 2, Finite 3]"
  "\<not> no_valid_values [Finite 0, Finite 0, Finite 0]"
  "\<not> no_valid_values [Finite 1]"
  "no_valid_values []"
  "\<not> no_valid_values [Finite 1, NaN, NaN]"
  "\<not> no_valid_values [Finite 1, PosInf, NegInf]"
  "\<not> no_valid_values [Finite 1, NaN, PosInf]"
  "no_valid_values [NaN, NaN, NaN]"
  "no_valid_values [PosInf, PosInf, NegInf]"
  "no_valid_values [NaN, PosInf, NegInf]"
  by (simp_all add: no_valid_values_def remove_invalid_entries_def)

lemma remove_invalid_entries_test_table:
  "remove_invalid_entries [Finite 0, Finite 1, Finite 2] = [Finite 0, Finite 1, Finite 2]"
  "remove_invalid_entries [Finite 1] = [Finite 1]"
  "remove_invalid_entries [Finite 0, PosInf, NegInf] = [Finite 0]"
  "remove_invalid_entries [Finite 0, NaN, PosInf] = [Finite 0]"
  by (simp_all add: remove_invalid_entries_def)

text \<open>
  Claim C2. \<^verbatim>\<open>summarize(T, n)\<close> returns \<^verbatim>\<open>Empty\<close> if and only if \<open>T\<close> has no finite value,
  that is, \<open>T\<close> is empty or each of its entries is NaN, +Infinity or -Infinity. On such
  an input no error is raised, whatever the later steps would do. A tensor with a finite
  value among non-finite ones is not \<^verbatim>\<open>Empty\<close>: \<^verbatim>\<open>[1.0, NaN, Inf]\<close> is not, \<^verbatim>\<open>[NaN, NaN]\<close> is.
\<close>

theorem summarize_Empty_iff:
  "(summarize histogram T n = Inr Empty \<longleftrightarrow> (\<forall>x \<in> set T. x \<in> {NaN, PosInf, NegInf}))
   \<and> (\<forall>e. (\<forall>x \<in> set T. x \<in> {NaN, PosInf, NegInf}) \<longrightarrow> summarize histogram T n \<noteq> Inl e)
   \<and> summarize histogram [Finite 1, NaN, PosInf] n \<noteq> Inr Empty
   \<and> summarize histogram [NaN, NaN] n = Inr Empty"
  by (auto simp: summarize_def no_valid_values_iff is_finite_iff split: sum.splits)

theorem summarize_Empty_iff_witness:
  "summarize (\<lambda>vals n. Inr (length vals, n)) [PosInf, NaN, NegInf] 64
     = (Inr Empty :: unit + (nat \<times> nat) summary)
   \<and> summarize (\<lambda>vals n. Inr (length vals, n)) [] 64
     = (Inr Empty :: unit + (nat \<times> nat) summary)
   \<and> summarize (\<lambda>vals n. Inr (length vals, n)) [PosInf, Finite 0, NaN] 64
     \<noteq> (Inr Empty :: unit + (nat \<times> nat) summary)"
  using
    summarize_Empty_iff [of "\<lambda>vals n. Inr (length vals, n) :: unit + (nat \<times> nat)"
      "[PosInf, NaN, NegInf]" 64]
    summarize_Empty_iff [of "\<lambda>vals n. Inr (length vals, n) :: unit + (nat \<times> nat)"
      "[]" 64]
    summarize_Empty_iff [of "\<lambda>vals n. Inr (length vals, n) :: unit + (nat \<times> nat)"
      "[PosInf, Finite 0, NaN]" 64]
  by simp

end
